theory Spec2Isabelle
  imports Main
begin

section \<open>JavaScript values used by the monitors\<close>

text \<open>
  A property that may be missing from a configuration object is a \<open>string option\<close>
  (\<open>None\<close> is \<open>undefined\<close>). \<open>truthy\<close> is the test that \<open>x || y\<close> and \<open>x ? a : b\<close>
  apply to such a value: \<open>undefined\<close> and the empty string are falsy.
\<close>

definition truthy :: "string option \<Rightarrow> bool" where
  "truthy v = (case v of None \<Rightarrow> False | Some s \<Rightarrow> s \<noteq> [])"

text \<open>\<open>a || b\<close> on two optional strings.\<close>

definition js_or :: "string option \<Rightarrow> string option \<Rightarrow> string option" where
  "js_or a b = (if truthy a then a else b)"

text \<open>The text of a value inside a template literal, and as a property key.\<close>

definition js_str :: "string option \<Rightarrow> string" where
  "js_str v = (case v of None \<Rightarrow> ''undefined'' | Some s \<Rightarrow> s)"

text \<open>
  The assignment \<open>obj[key] = value\<close> of an object \<open>value\<close> to a plain object \<open>obj\<close>
  that serves as a dictionary. The map holds the own properties of \<open>obj\<close>, which
  are what the object shows when it is enumerated or written as JSON. The key
  \<open>__proto__\<close> is the accessor that every plain object inherits: the assignment
  then replaces the prototype of \<open>obj\<close> and adds no own property.
\<close>

definition set_property :: "(string \<rightharpoonup> 'v) \<Rightarrow> string \<Rightarrow> 'v \<Rightarrow> (string \<rightharpoonup> 'v)" where
  "set_property obj key v = (if key = ''__proto__'' then obj else obj(key \<mapsto> v))"

text \<open>Decimal rendering of a number inside a template literal.\<close>

definition digit_char :: "nat \<Rightarrow> char" where
  "digit_char d = char_of (48 + d)"

fun show_nat :: "nat \<Rightarrow> string" where
  "show_nat n = (if n < 10 then [digit_char n] else show_nat (n div 10) @ [digit_char (n mod 10)])"

declare show_nat.simps [simp del]

definition show_int :: "int \<Rightarrow> string" where
  "show_int i = (if i < 0 then CHR ''-'' # show_nat (nat (- i)) else show_nat (nat i))"

text \<open>
  A value thrown by the runtime or by a client library. Only its kind and its
  \<open>message\<close> property are read by the monitors.
\<close>

datatype js_error = TypeError string | Error string

fun message_of :: "js_error \<Rightarrow> string" where
  "message_of (TypeError m) = m"
| "message_of (Error m) = m"

section \<open>WebsiteMonitor\<close>

record website =
  w_url :: string
  w_name :: "string option"

record http_response =
  status :: int
  statusText :: string

text \<open>The error object with which \<open>axios.get\<close> rejects.\<close>

record axios_error =
  response :: "http_response option"
  code :: "string option"
  message :: string

text \<open>
  What the network does with the GET request: an HTTP response arrives, or the
  transport fails with an error code (absent for some failures) and a message.
\<close>

datatype net_reply = HttpReply int string | NetFailure "string option" string

text \<open>
  Everything one run of \<open>checkWebsite\<close> reads from outside: \<open>Date.now()\<close> before the
  request, the reply, \<open>Date.now()\<close> after it, and \<open>new Date().toISOString()\<close> when the
  result object is built.
\<close>

record web_obs =
  startTime :: int
  reply :: net_reply
  endTime :: int
  isoTime :: string

record web_result =
  r_url :: string
  r_name :: string
  r_status :: string
  r_statusCode :: int
  r_responseTime :: int
  r_timestamp :: string
  r_message :: string

text \<open>The option \<open>validateStatus: (status) => status < 500\<close> passed to axios.\<close>

definition validateStatus :: "int \<Rightarrow> bool" where
  "validateStatus st = (st < 500)"

text \<open>
  The contract of \<open>axios.get\<close> with a \<open>validateStatus\<close> option: the promise resolves
  with the response when \<open>validateStatus\<close> accepts its status code and rejects with
  an error carrying the response otherwise; a transport failure rejects with an
  error that has no response.
\<close>

definition axios_get :: "(int \<Rightarrow> bool) \<Rightarrow> net_reply \<Rightarrow> axios_error + http_response" where
  "axios_get validate rep =
     (case rep of
        HttpReply st txt \<Rightarrow>
          if validate st then Inr \<lparr>status = st, statusText = txt\<rparr>
          else Inl \<lparr>response = Some \<lparr>status = st, statusText = txt\<rparr>,
                    code = Some ''ERR_BAD_RESPONSE'',
                    message = ''Request failed with status code '' @ show_int st\<rparr>
      | NetFailure c m \<Rightarrow> Inl \<lparr>response = None, code = c, message = m\<rparr>)"

text \<open>The \<open>if\<close>/\<open>else if\<close> chain of the \<open>catch\<close> block: status code and message.\<close>

definition classify :: "axios_error \<Rightarrow> int \<times> string" where
  "classify err =
     (case response err of
        Some resp \<Rightarrow> (status resp, ''HTTP '' @ show_int (status resp) @ '' - '' @ statusText resp)
      | None \<Rightarrow>
          if code err = Some ''ECONNABORTED'' then (0, ''Request timeout'')
          else if code err = Some ''ENOTFOUND'' then (0, ''DNS resolution failed'')
          else if code err = Some ''ECONNREFUSED'' then (0, ''Connection refused'')
          else (0, message err))"

text \<open>
  \<open>checkWebsite(website)\<close>. The argument is an entry of the \<open>websites\<close> array; \<open>None\<close>
  is a \<open>null\<close> entry, for which \<open>website.url\<close> throws a TypeError inside \<open>try\<close> and
  again while the \<open>catch\<close> block builds its result, so the call rejects.
\<close>

definition checkWebsite :: "website option \<Rightarrow> web_obs \<Rightarrow> js_error + web_result" where
  "checkWebsite entry ob =
     (case entry of
        None \<Rightarrow> Inl (TypeError ''Cannot read properties of null (reading 'url')'')
      | Some website \<Rightarrow>
          (case axios_get validateStatus (reply ob) of
             Inr resp \<Rightarrow>
               Inr \<lparr>r_url = w_url website,
                    r_name = js_str (js_or (w_name website) (Some (w_url website))),
                    r_status = ''up'',
                    r_statusCode = status resp,
                    r_responseTime = endTime ob - startTime ob,
                    r_timestamp = isoTime ob,
                    r_message = ''OK - '' @ show_int (status resp)\<rparr>
           | Inl err \<Rightarrow>
               Inr \<lparr>r_url = w_url website,
                    r_name = js_str (js_or (w_name website) (Some (w_url website))),
                    r_status = ''down'',
                    r_statusCode = fst (classify err),
                    r_responseTime = endTime ob - startTime ob,
                    r_timestamp = isoTime ob,
                    r_message = snd (classify err)\<rparr>))"

text \<open>
  \<open>WebsiteMonitor.checkAll()\<close>. Every entry of \<open>websites\<close> gets its own task, which
  awaits \<open>checkWebsite\<close> and then stores the result under \<open>website.url\<close>;
  \<open>Promise.all\<close> waits for all of them and rejects as soon as one task rejects, in
  which case \<open>results\<close> is never returned. The argument lists the entries with what
  each probe observes, in the order in which the tasks complete.
\<close>

fun website_tasks ::
  "(website option \<times> web_obs) list \<Rightarrow> (string \<rightharpoonup> web_result) \<Rightarrow> js_error + (string \<rightharpoonup> web_result)" where
  "website_tasks [] results = Inr results"
| "website_tasks ((entry, ob) # rest) results =
     (case checkWebsite entry ob of
        Inl e \<Rightarrow> Inl e
      | Inr result \<Rightarrow>
          (case entry of
             None \<Rightarrow> Inl (TypeError ''Cannot read properties of null (reading 'url')'')
           | Some website \<Rightarrow> website_tasks rest (set_property results (w_url website) result)))"

definition WebsiteMonitor_checkAll ::
  "(website option \<times> web_obs) list \<Rightarrow> js_error + (string \<rightharpoonup> web_result)" where
  "WebsiteMonitor_checkAll tasks = website_tasks tasks Map.empty"

section \<open>AzureFileMonitor\<close>

subsection \<open>The remote share\<close>

text \<open>
  What \<open>listFilesAndDirectories()\<close> yields for one directory: the items in the order
  of the listing and, after them, either the end of the iteration or a thrown
  error. A file carries the outcome of \<open>getProperties()\<close> on it (an error, or its
  \<open>lastModified\<close> date in milliseconds); a directory carries its own listing.
\<close>

datatype item =
    FileItem string "js_error + int"
  | DirectoryItem string listing
  | OtherItem string
and listing = Listing "item list" "js_error option"

record aggregate =
  count :: int
  oldestFile :: "int option"
  newestFile :: "int option"

definition empty_aggregate :: aggregate where
  "empty_aggregate = \<lparr>count = 0, oldestFile = None, newestFile = None\<rparr>"

text \<open>
  The branch \<open>item.kind === 'file'\<close>: the file is counted, then its properties are
  fetched inside a \<open>try\<close> of their own; a failure there is logged and dropped.
\<close>

definition count_file :: "aggregate \<Rightarrow> js_error + int \<Rightarrow> aggregate" where
  "count_file acc props =
     (case props of
        Inl propError \<Rightarrow> acc\<lparr>count := count acc + 1\<rparr>
      | Inr lastModified \<Rightarrow>
          \<lparr>count = count acc + 1,
           oldestFile = (case oldestFile acc of
                           None \<Rightarrow> Some lastModified
                         | Some t \<Rightarrow> if lastModified < t then Some lastModified else Some t),
           newestFile = (case newestFile acc of
                           None \<Rightarrow> Some lastModified
                         | Some t \<Rightarrow> if lastModified > t then Some lastModified else Some t)\<rparr>)"

text \<open>
  The branch \<open>item.kind === 'directory'\<close> after the recursive call returned
  \<open>subResult\<close>. The recursive call always returns an object, so the branch for a
  bare number is never taken.
\<close>

definition merge :: "aggregate \<Rightarrow> aggregate \<Rightarrow> aggregate" where
  "merge acc subResult =
     \<lparr>count = count acc + count subResult,
      oldestFile = (case oldestFile subResult of
                      None \<Rightarrow> oldestFile acc
                    | Some s \<Rightarrow> (case oldestFile acc of
                                  None \<Rightarrow> Some s
                                | Some t \<Rightarrow> if s < t then Some s else Some t)),
      newestFile = (case newestFile subResult of
                      None \<Rightarrow> newestFile acc
                    | Some s \<Rightarrow> (case newestFile acc of
                                  None \<Rightarrow> Some s
                                | Some t \<Rightarrow> if s > t then Some s else Some t))\<rparr>"

text \<open>
  \<open>countFilesRecursively(directoryClient, path)\<close>. \<open>scan\<close> is the \<open>for await\<close> loop
  with its running \<open>fileCount\<close>, \<open>oldestFile\<close> and \<open>newestFile\<close>; an error of the
  listing, or of a recursive call, leaves the loop and is thrown again.
\<close>

fun countFilesRecursively :: "listing \<Rightarrow> js_error + aggregate"
and scan :: "item list \<Rightarrow> js_error option \<Rightarrow> aggregate \<Rightarrow> js_error + aggregate" where
  "countFilesRecursively (Listing items failure) = scan items failure empty_aggregate"
| "scan [] failure acc = (case failure of Some error \<Rightarrow> Inl error | None \<Rightarrow> Inr acc)"
| "scan (FileItem name props # rest) failure acc = scan rest failure (count_file acc props)"
| "scan (DirectoryItem name sub # rest) failure acc =
     (case countFilesRecursively sub of
        Inl error \<Rightarrow> Inl error
      | Inr subResult \<Rightarrow> scan rest failure (merge acc subResult))"
| "scan (OtherItem name # rest) failure acc = scan rest failure acc"

subsection \<open>The probe of one share\<close>

datatype credential = StorageSharedKeyCredential string string

record storage =
  accountName :: "string option"
  shareName :: string
  s_name :: "string option"
  sasUrl :: "string option"
  credential :: "credential option"
  directories :: "string list option"

text \<open>
  A \<open>ShareClient\<close>: the outcome of \<open>exists()\<close> (an error or the boolean) and, for every
  path, what listing the directory client of that path yields during the probe.
\<close>

record share =
  exists_reply :: "js_error + bool"
  directory :: "string \<Rightarrow> listing"

text \<open>The two ways in which \<open>checkFileStorage\<close> builds its \<open>ShareServiceClient\<close>.\<close>

datatype access = BySasUrl string | ByCredential string credential

text \<open>
  Everything one run of \<open>checkFileStorage\<close> reads from outside: what constructing
  the client for the share gives (the constructor may throw), the text of
  \<open>new Date().toISOString()\<close> when the result object is built, and
  \<open>Date.prototype.toISOString\<close> on a \<open>lastModified\<close> date.
\<close>

record store_obs =
  connect :: "access \<Rightarrow> js_error + share"
  now_iso :: string
  toISOString :: "int \<Rightarrow> string"

text \<open>An entry of \<open>directoryBreakdown\<close>: the three counts fields, or \<open>{error: message}\<close>.\<close>

datatype dir_report = DirCounts int "string option" "string option" | DirError string

record store_result =
  sr_accountName :: "string option"
  sr_shareName :: string
  sr_name :: string
  sr_status :: string
  sr_fileCount :: int
  sr_timestamp :: string
  sr_message :: string
  sr_directoryBreakdown :: "(string \<rightharpoonup> dir_report) option"

text \<open>
  The requests that \<open>checkFileStorage\<close> itself starts on the share: \<open>exists()\<close>, and
  every call of \<open>countFilesRecursively\<close>, which lists the directory of the given
  path. All network traffic of a probe happens inside these calls.
\<close>

datatype store_op = ShareExists | CountFiles string

text \<open>\<open>date?.toISOString() || null\<close>.\<close>

definition iso_or_null :: "(int \<Rightarrow> string) \<Rightarrow> int option \<Rightarrow> string option" where
  "iso_or_null fmt date =
     (case date of None \<Rightarrow> None | Some t \<Rightarrow> if fmt t = [] then None else Some (fmt t))"

text \<open>The error object that four \<open>return\<close> statements build, up to its message.\<close>

definition error_result :: "storage \<Rightarrow> string \<Rightarrow> string \<Rightarrow> store_result" where
  "error_result storage stamp msg =
     \<lparr>sr_accountName = accountName storage,
      sr_shareName = shareName storage,
      sr_name = js_str (js_or (s_name storage)
                  (Some (js_str (accountName storage) @ ''/'' @ shareName storage))),
      sr_status = ''error'',
      sr_fileCount = 0,
      sr_timestamp = stamp,
      sr_message = msg,
      sr_directoryBreakdown = None\<rparr>"

text \<open>
  The loop \<open>for (const dir of storage.directories)\<close> with its running \<open>fileCount\<close>
  and \<open>results\<close>; each traversal has a \<open>try\<close>/\<open>catch\<close> of its own.
\<close>

fun count_directories ::
  "share \<Rightarrow> (int \<Rightarrow> string) \<Rightarrow> string list \<Rightarrow> int \<times> (string \<rightharpoonup> dir_report)
     \<Rightarrow> int \<times> (string \<rightharpoonup> dir_report)" where
  "count_directories shareClient fmt [] (fileCount, results) = (fileCount, results)"
| "count_directories shareClient fmt (dir # dirs) (fileCount, results) =
     (case countFilesRecursively (directory shareClient dir) of
        Inr dirResult \<Rightarrow>
          count_directories shareClient fmt dirs
            (fileCount + count dirResult,
             set_property results dir
               (DirCounts (count dirResult)
                  (iso_or_null fmt (oldestFile dirResult))
                  (iso_or_null fmt (newestFile dirResult))))
      | Inl dirError \<Rightarrow>
          count_directories shareClient fmt dirs
            (fileCount, set_property results dir (DirError (message_of dirError))))"

text \<open>
  The part of \<open>checkFileStorage\<close> after the share is known to exist: the traversal
  and the response built from it.
\<close>

definition count_share :: "storage \<Rightarrow> store_obs \<Rightarrow> share \<Rightarrow> store_result \<times> store_op list" where
  "count_share storage ob shareClient =
     (case directories storage of
        Some (d # ds) \<Rightarrow>
          (case count_directories shareClient (toISOString ob) (d # ds) (0, Map.empty) of
             (fileCount, results) \<Rightarrow>
               (\<lparr>sr_accountName = accountName storage,
                 sr_shareName = shareName storage,
                 sr_name = js_str (js_or (s_name storage)
                             (Some (js_str (accountName storage) @ ''/'' @ shareName storage))),
                 sr_status = ''ok'',
                 sr_fileCount = fileCount,
                 sr_timestamp = now_iso ob,
                 sr_message = show_int fileCount @ '' files found across ''
                                @ show_nat (length (d # ds)) @ '' directories'',
                 sr_directoryBreakdown = Some results\<rparr>,
                map CountFiles (d # ds)))
      | _ \<Rightarrow>
          (case countFilesRecursively (directory shareClient []) of
             Inl error \<Rightarrow> (error_result storage (now_iso ob) (message_of error), [CountFiles []])
           | Inr result \<Rightarrow>
               (\<lparr>sr_accountName = accountName storage,
                 sr_shareName = shareName storage,
                 sr_name = js_str (js_or (s_name storage)
                             (Some (js_str (accountName storage) @ ''/'' @ shareName storage))),
                 sr_status = ''ok'',
                 sr_fileCount = count result,
                 sr_timestamp = now_iso ob,
                 sr_message = show_int (count result) @ '' files found'',
                 sr_directoryBreakdown = None\<rparr>,
                [CountFiles []])))"

text \<open>
  The first \<open>if\<close>/\<open>else if\<close>/\<open>else\<close> of \<open>checkFileStorage\<close>: the share client is
  built from \<open>sasUrl\<close> when that is set, from the account URL and \<open>credential\<close> when
  that is set, and otherwise (\<open>None\<close>) the configuration error is thrown.
\<close>

definition make_client :: "storage \<Rightarrow> store_obs \<Rightarrow> (js_error + share) option" where
  "make_client storage ob =
     (if truthy (sasUrl storage) then
        Some (connect ob (BySasUrl (js_str (sasUrl storage))))
      else
        (case credential storage of
           Some cred \<Rightarrow>
             Some (connect ob (ByCredential
               (''https://'' @ js_str (accountName storage) @ ''.file.core.windows.net'') cred))
         | None \<Rightarrow> None))"

text \<open>
  \<open>checkFileStorage(storage)\<close>, returning the result object together with the
  requests it started. \<open>None\<close> is a \<open>null\<close> entry of \<open>storageAccounts\<close>:
  \<open>storage.sasUrl\<close> throws inside \<open>try\<close> and \<open>storage.accountName\<close> throws again in the
  outer \<open>catch\<close>, so the call rejects.
\<close>

definition checkFileStorage ::
  "storage option \<Rightarrow> store_obs \<Rightarrow> js_error + (store_result \<times> store_op list)" where
  "checkFileStorage entry ob =
     (case entry of
        None \<Rightarrow> Inl (TypeError ''Cannot read properties of null (reading 'accountName')'')
      | Some storage \<Rightarrow>
          Inr (case make_client storage ob of
                 None \<Rightarrow>
                   (error_result storage (now_iso ob)
                      ''Either sasUrl or credential must be provided'', [])
               | Some (Inl error) \<Rightarrow>
                   (error_result storage (now_iso ob) (message_of error), [])
               | Some (Inr shareClient) \<Rightarrow>
                   (case exists_reply shareClient of
                      Inl error \<Rightarrow>
                        (error_result storage (now_iso ob) (message_of error), [ShareExists])
                    | Inr False \<Rightarrow>
                        (error_result storage (now_iso ob) ''Share does not exist'',
                         [ShareExists])
                    | Inr True \<Rightarrow>
                        (case count_share storage ob shareClient of
                           (result, ops) \<Rightarrow> (result, ShareExists # ops)))))"

text \<open>
  \<open>AzureFileMonitor.checkAll()\<close>, built like the one of the websites; the key is
  \<open>storage.accountName ? `${storage.accountName}/${storage.shareName}` :
  storage.name || storage.sasUrl\<close>.
\<close>

definition storage_key :: "storage \<Rightarrow> string" where
  "storage_key storage =
     (if truthy (accountName storage)
      then js_str (accountName storage) @ ''/'' @ shareName storage
      else js_str (js_or (s_name storage) (sasUrl storage)))"

fun storage_tasks ::
  "(storage option \<times> store_obs) list \<Rightarrow> (string \<rightharpoonup> store_result)
     \<Rightarrow> js_error + (string \<rightharpoonup> store_result)" where
  "storage_tasks [] results = Inr results"
| "storage_tasks ((entry, ob) # rest) results =
     (case checkFileStorage entry ob of
        Inl e \<Rightarrow> Inl e
      | Inr (result, ops) \<Rightarrow>
          (case entry of
             None \<Rightarrow> Inl (TypeError ''Cannot read properties of null (reading 'accountName')'')
           | Some storage \<Rightarrow> storage_tasks rest (set_property results (storage_key storage) result)))"

definition AzureFileMonitor_checkAll ::
  "(storage option \<times> store_obs) list \<Rightarrow> js_error + (string \<rightharpoonup> store_result)" where
  "AzureFileMonitor_checkAll tasks = storage_tasks tasks Map.empty"

section \<open>The monitoring cycle\<close>

record monitoring_results =
  websites :: "string \<rightharpoonup> web_result"
  azureFiles :: "string \<rightharpoonup> store_result"
  lastUpdate :: "string option"

text \<open>
  \<open>runMonitoring()\<close> in \<open>server.js\<close>: both \<open>checkAll\<close> calls run inside one \<open>try\<close>;
  when either rejects, the error is logged and \<open>monitoringResults\<close> keeps its
  previous value.
\<close>

definition runMonitoring ::
  "(website option \<times> web_obs) list \<Rightarrow> (storage option \<times> store_obs) list \<Rightarrow> string
     \<Rightarrow> monitoring_results \<Rightarrow> monitoring_results" where
  "runMonitoring web_tasks store_tasks stamp monitoringResults =
     (case WebsiteMonitor_checkAll web_tasks of
        Inl error \<Rightarrow> monitoringResults
      | Inr websiteResults \<Rightarrow>
          (case AzureFileMonitor_checkAll store_tasks of
             Inl error \<Rightarrow> monitoringResults
           | Inr azureFileResults \<Rightarrow>
               \<lparr>websites = websiteResults,
                azureFiles = azureFileResults,
                lastUpdate = Some stamp\<rparr>))"

section \<open>Notions used to state the properties\<close>

text \<open>
  The combination of two aggregates as the specification words it: the sum of the
  counts, the minimum of the oldest and the maximum of the newest dates, where an
  absent date does not take part.
\<close>

definition combine_opt :: "(int \<Rightarrow> int \<Rightarrow> int) \<Rightarrow> int option \<Rightarrow> int option \<Rightarrow> int option" where
  "combine_opt f a b = (case a of None \<Rightarrow> b | Some x \<Rightarrow> (case b of None \<Rightarrow> Some x | Some y \<Rightarrow> Some (f x y)))"

definition combine :: "aggregate \<Rightarrow> aggregate \<Rightarrow> aggregate" where
  "combine a b = \<lparr>count = count a + count b,
                  oldestFile = combine_opt min (oldestFile a) (oldestFile b),
                  newestFile = combine_opt max (newestFile a) (newestFile b)\<rparr>"

text \<open>The shape every returned aggregate is expected to have.\<close>

definition well_formed :: "aggregate \<Rightarrow> bool" where
  "well_formed a = (0 \<le> count a \<and> (oldestFile a = None \<longleftrightarrow> newestFile a = None)
      \<and> (\<forall>t u. oldestFile a = Some t \<longrightarrow> newestFile a = Some u \<longrightarrow> t \<le> u))"

text \<open>
  The number of files in a directory tree, whether every listing of the tree
  completes, and the relation between two trees that differ only in the order in
  which their listings, at any depth, enumerate the items.
\<close>

fun numFiles :: "listing \<Rightarrow> int" and numFiles_items :: "item list \<Rightarrow> int" where
  "numFiles (Listing items failure) = numFiles_items items"
| "numFiles_items [] = 0"
| "numFiles_items (FileItem name props # rest) = 1 + numFiles_items rest"
| "numFiles_items (DirectoryItem name sub # rest) = numFiles sub + numFiles_items rest"
| "numFiles_items (OtherItem name # rest) = numFiles_items rest"

fun listable :: "listing \<Rightarrow> bool" and listable_items :: "item list \<Rightarrow> bool" where
  "listable (Listing items failure) = (failure = None \<and> listable_items items)"
| "listable_items [] = True"
| "listable_items (FileItem name props # rest) = listable_items rest"
| "listable_items (DirectoryItem name sub # rest) = (listable sub \<and> listable_items rest)"
| "listable_items (OtherItem name # rest) = listable_items rest"

inductive reordered :: "listing \<Rightarrow> listing \<Rightarrow> bool"
and reordered_items :: "item list \<Rightarrow> item list \<Rightarrow> bool" where
  listing: "reordered_items xs ys \<Longrightarrow> reordered (Listing xs failure) (Listing ys failure)"
| nil: "reordered_items [] []"
| keep: "reordered_items xs ys \<Longrightarrow> reordered_items (x # xs) (x # ys)"
| inside: "reordered sub sub' \<Longrightarrow> reordered_items xs ys
           \<Longrightarrow> reordered_items (DirectoryItem name sub # xs) (DirectoryItem name sub' # ys)"
| swap: "reordered_items (x # y # xs) (y # x # xs)"
| trans: "reordered_items xs ys \<Longrightarrow> reordered_items ys zs \<Longrightarrow> reordered_items xs zs"


definition dir_report :: "share \<Rightarrow> (int \<Rightarrow> string) \<Rightarrow> string \<Rightarrow> dir_report" where
  "dir_report sh fmt d =
     (case countFilesRecursively (directory sh d) of
        Inr dirResult \<Rightarrow>
          DirCounts (count dirResult) (iso_or_null fmt (oldestFile dirResult))
            (iso_or_null fmt (newestFile dirResult))
      | Inl dirError \<Rightarrow> DirError (message_of dirError))"

text \<open>
  The result object that the probe of a configured target returns, and the pair of
  key and result that the task of the target stores.
\<close>

definition website_result :: "website \<Rightarrow> web_obs \<Rightarrow> web_result" where
  "website_result w ob = projr (checkWebsite (Some w) ob)"

definition storage_result :: "storage \<Rightarrow> store_obs \<Rightarrow> store_result" where
  "storage_result s ob = fst (projr (checkFileStorage (Some s) ob))"

definition website_entry :: "website \<times> web_obs \<Rightarrow> string \<times> web_result" where
  "website_entry t = (w_url (fst t), website_result (fst t) (snd t))"

definition storage_entry :: "storage \<times> store_obs \<Rightarrow> string \<times> store_result" where
  "storage_entry t = (storage_key (fst t), storage_result (fst t) (snd t))"

text \<open>
  Of a list of keys with their values, the pairs that become properties of a result
  object: all but those under the key \<open>__proto__\<close>.
\<close>

definition own_entries :: "(string \<times> 'v) list \<Rightarrow> (string \<times> 'v) list" where
  "own_entries kvs = filter (\<lambda>kv. fst kv \<noteq> ''__proto__'') kvs"

text \<open>A configured target as an entry of the array handed to a monitor.\<close>

definition configured :: "'a \<times> 'b \<Rightarrow> 'a option \<times> 'b" where
  "configured t = (Some (fst t), snd t)"

section \<open>Example inputs\<close>

definition tree1 :: listing where
  "tree1 = Listing
     [FileItem ''a.log'' (Inr 50),
      DirectoryItem ''sub''
        (Listing [FileItem ''b.log'' (Inr 30), FileItem ''c.log'' (Inl (Error ''busy''))] None)]
     None"

definition tree2 :: listing where
  "tree2 = Listing
     [DirectoryItem ''sub''
        (Listing [FileItem ''c.log'' (Inl (Error ''busy'')), FileItem ''b.log'' (Inr 30)] None),
      FileItem ''a.log'' (Inr 50)]
     None"

definition site_ok :: website where
  "site_ok = \<lparr>w_url = ''https://ok.example'', w_name = None\<rparr>"

definition obs_200 :: web_obs where
  "obs_200 = \<lparr>startTime = 1700000000000, reply = HttpReply 200 ''OK'',
               endTime = 1700000000120, isoTime = ''2023-11-14T22:13:20.120Z''\<rparr>"

definition obs_404 :: web_obs where
  "obs_404 = \<lparr>startTime = 1700000000000, reply = HttpReply 404 ''Not Found'',
               endTime = 1700000000080, isoTime = ''2023-11-14T22:13:20.080Z''\<rparr>"

definition obs_503 :: web_obs where
  "obs_503 = \<lparr>startTime = 1700000000000, reply = HttpReply 503 ''Service Unavailable'',
               endTime = 1700000000040, isoTime = ''2023-11-14T22:13:20.040Z''\<rparr>"

definition obs_timeout :: web_obs where
  "obs_timeout = \<lparr>startTime = 1700000000000,
                   reply = NetFailure (Some ''ECONNABORTED'') ''timeout of 10000ms exceeded'',
                   endTime = 1700000010001, isoTime = ''2023-11-14T22:13:30.001Z''\<rparr>"

definition share_logs :: share where
  "share_logs = \<lparr>exists_reply = Inr True,
     directory = (\<lambda>path.
        if path = [] then Listing [FileItem ''root.txt'' (Inr 10)] None
        else if path = ''a'' then tree1
        else if path = ''b'' then Listing [FileItem ''x'' (Inr 1)] (Some (Error ''ShareBusy''))
        else Listing [] (Some (Error ''ResourceNotFound'')))\<rparr>"

definition share_absent :: share where
  "share_absent = \<lparr>exists_reply = Inr False,
     directory = (\<lambda>path. Listing [] (Some (Error ''ShareNotFound'')))\<rparr>"

definition iso_ms :: "int \<Rightarrow> string" where
  "iso_ms t = ''T+'' @ show_int t"

definition obs_logs :: store_obs where
  "obs_logs = \<lparr>connect = (\<lambda>a. Inr share_logs), now_iso = ''2023-11-14T22:13:20.000Z'',
                toISOString = iso_ms\<rparr>"

definition obs_absent :: store_obs where
  "obs_absent = \<lparr>connect = (\<lambda>a. Inr share_absent), now_iso = ''2023-11-14T22:13:20.000Z'',
                toISOString = iso_ms\<rparr>"

definition store_no_access :: storage where
  "store_no_access = \<lparr>accountName = Some ''acct'', shareName = ''logs'', s_name = None,
      sasUrl = None, credential = None, directories = None\<rparr>"

definition store_empty_dirs :: storage where
  "store_empty_dirs = \<lparr>accountName = None, shareName = ''logs'', s_name = Some ''Logs'',
      sasUrl = Some ''https://acct.file.core.windows.net/?sv=1'', credential = None,
      directories = Some []\<rparr>"

definition store_two_dirs :: storage where
  "store_two_dirs = \<lparr>accountName = None, shareName = ''logs'', s_name = Some ''Logs'',
      sasUrl = Some ''https://acct.file.core.windows.net/?sv=1'', credential = None,
      directories = Some [''a'', ''b'']\<rparr>"

definition no_results :: monitoring_results where
  "no_results = \<lparr>websites = Map.empty, azureFiles = Map.empty, lastUpdate = None\<rparr>"

definition site_b :: website where
  "site_b = \<lparr>w_url = ''https://b.example'', w_name = Some ''B''\<rparr>"

definition two_sites :: "(website \<times> web_obs) list" where
  "two_sites = [(site_ok, obs_200), (site_b, obs_503)]"


definition two_stores :: "(storage \<times> store_obs) list" where
  "two_stores = [(store_two_dirs, obs_logs), (store_no_access, obs_logs)]"

definition sites_with_null :: "(website option \<times> web_obs) list" where
  "sites_with_null = [(Some site_ok, obs_200), (None, obs_200)]"



section \<open>Merging aggregates\<close>

lemma merge_combine: "merge a b = combine a b"
  by (cases a; cases b) (auto simp: merge_def combine_def combine_opt_def min_def max_def split: option.splits)

lemma combine_opt_comm: "combine_opt min a b = combine_opt min b a" "combine_opt max a b = combine_opt max b a"
  by (auto simp: combine_opt_def split: option.splits)

lemma combine_opt_assoc: "combine_opt min (combine_opt min a b) c = combine_opt min a (combine_opt min b c)"
  "combine_opt max (combine_opt max a b) c = combine_opt max a (combine_opt max b c)"
  by (auto simp: combine_opt_def split: option.splits)

lemma combine_opt_None: "combine_opt f a None = a" "combine_opt f None a = a"
  by (auto simp: combine_opt_def split: option.splits)

lemma combine_comm: "combine a b = combine b a"
  by (simp add: combine_def combine_opt_comm)

lemma combine_assoc: "combine (combine a b) c = combine a (combine b c)"
  by (simp add: combine_def combine_opt_assoc)

lemma combine_empty: "combine a empty_aggregate = a" "combine empty_aggregate a = a"
  by (simp_all add: combine_def empty_aggregate_def combine_opt_None)

text \<open>
  Claim C7. The merge that \<open>countFilesRecursively\<close> applies to the result of a
  subdirectory is the combination of the specification (sum of the counts, minimum
  of the oldest dates, maximum of the newest dates, an absent date not taking
  part); it is commutative and associative, and the empty aggregate is its
  identity on both sides.
\<close>

theorem merge_monoid:
  "merge a b = combine a b \<and> merge a b = merge b a \<and> merge (merge a b) c = merge a (merge b c)
   \<and> merge a empty_aggregate = a \<and> merge empty_aggregate a = a"
  using combine_comm [of a b] combine_assoc [of a b c] combine_empty [of a]
  by (simp add: merge_combine)

section \<open>The recursive traversal\<close>

subsection \<open>The shape of the returned aggregate\<close>

lemma wf_empty: "well_formed empty_aggregate" by (simp add: well_formed_def empty_aggregate_def)

lemma wf_count_file: "well_formed a \<Longrightarrow> well_formed (count_file a p)"
  by (cases p; cases "oldestFile a"; cases "newestFile a")
     (simp_all add: well_formed_def count_file_def)

lemma wf_merge: "well_formed a \<Longrightarrow> well_formed b \<Longrightarrow> well_formed (merge a b)"
  by (cases "oldestFile a"; cases "newestFile a"; cases "oldestFile b"; cases "newestFile b")
     (simp_all add: well_formed_def merge_def)

lemma wf_traversal:
  "countFilesRecursively d = Inr a \<Longrightarrow> well_formed a"
  "well_formed acc \<Longrightarrow> scan items failure acc = Inr a \<Longrightarrow> well_formed a"
proof (induction d and items failure acc arbitrary: a and a rule: countFilesRecursively_scan.induct)
  case (1 items failure)
  then show ?case by (simp add: wf_empty)
next
  case (2 failure acc)
  then show ?case by (cases failure) simp_all
next
  case (3 name props rest failure acc)
  from 3(2) have "well_formed (count_file acc props)" by (rule wf_count_file)
  with 3 show ?case by simp
next
  case (4 name sub rest failure acc)
  show ?case
  proof (cases "countFilesRecursively sub")
    case (Inl e)
    with 4(4) show ?thesis by simp
  next
    case (Inr subResult)
    then have "well_formed subResult" by (rule 4(1))
    with 4(3) have "well_formed (merge acc subResult)" by (rule wf_merge)
    moreover from 4(4) Inr have "scan rest failure (merge acc subResult) = Inr a" by simp
    ultimately show ?thesis using 4(2) [OF Inr] by blast
  qed
next
  case (5 name rest failure acc)
  then show ?case by simp
qed

subsection \<open>The count is the number of files\<close>

lemma reordered_same:
  "reordered d d' \<Longrightarrow> numFiles d = numFiles d' \<and> (listable d \<longleftrightarrow> listable d')"
  "reordered_items xs ys \<Longrightarrow>
     numFiles_items xs = numFiles_items ys \<and> (listable_items xs \<longleftrightarrow> listable_items ys)"
proof (induction rule: reordered_reordered_items.inducts)
  case (listing xs ys failure)
  then show ?case by simp
next
  case nil
  then show ?case by simp
next
  case (keep xs ys x)
  then show ?case by (cases x) simp_all
next
  case (inside sub sub' xs ys name)
  then show ?case by simp
next
  case (swap x y xs)
  show ?case by (cases x; cases y) auto
next
  case (trans xs ys zs)
  then show ?case by simp
qed

lemma traversal_count:
  "countFilesRecursively d = Inr a \<Longrightarrow> count a = numFiles d"
  "scan items failure acc = Inr a \<Longrightarrow> count a = count acc + numFiles_items items"
proof (induction d and items failure acc arbitrary: a and a rule: countFilesRecursively_scan.induct)
  case (1 items failure)
  from 1(2) have "scan items failure empty_aggregate = Inr a" by simp
  then have "count a = count empty_aggregate + numFiles_items items" by (rule 1(1))
  then show ?case by (simp add: empty_aggregate_def)
next
  case (2 failure acc)
  then show ?case by (cases failure) simp_all
next
  case (3 name props rest failure acc)
  from 3(2) have "scan rest failure (count_file acc props) = Inr a" by simp
  then have "count a = count (count_file acc props) + numFiles_items rest" by (rule 3(1))
  moreover have "count (count_file acc props) = count acc + 1"
    by (cases props) (simp_all add: count_file_def)
  ultimately show ?case by simp
next
  case (4 name sub rest failure acc)
  show ?case
  proof (cases "countFilesRecursively sub")
    case (Inl e)
    with 4(3) show ?thesis by simp
  next
    case (Inr subResult)
    then have "count subResult = numFiles sub" by (rule 4(1))
    moreover from 4(3) Inr have "scan rest failure (merge acc subResult) = Inr a" by simp
    then have "count a = count (merge acc subResult) + numFiles_items rest"
      by (rule 4(2) [OF Inr])
    moreover have "count (merge acc subResult) = count acc + count subResult"
      by (simp add: merge_def)
    ultimately show ?thesis by simp
  qed
next
  case (5 name rest failure acc)
  from 5(2) have "scan rest failure acc = Inr a" by simp
  then have "count a = count acc + numFiles_items rest" by (rule 5(1))
  then show ?case by simp
qed

lemma traversal_returns:
  "(\<exists>a. countFilesRecursively d = Inr a) = listable d"
  "(\<exists>a. scan items failure acc = Inr a) = (failure = None \<and> listable_items items)"
proof (induction d and items failure acc rule: countFilesRecursively_scan.induct)
  case (1 items failure)
  then show ?case by simp
next
  case (2 failure acc)
  then show ?case by (cases failure) simp_all
next
  case (3 name props rest failure acc)
  then show ?case by simp
next
  case (4 name sub rest failure acc)
  show ?case
  proof (cases "countFilesRecursively sub")
    case (Inl e)
    with 4(1) have "\<not> listable sub" by simp
    with Inl show ?thesis by simp
  next
    case (Inr subResult)
    with 4(1) have "listable sub" by auto
    with Inr 4(2) [OF Inr] show ?thesis by simp
  qed
next
  case (5 name rest failure acc)
  then show ?case by simp
qed

lemma reordered_items_refl: "reordered_items xs xs"
  by (induction xs) (auto intro: reordered_reordered_items.intros)

lemma reordered_refl: "reordered d d"
  by (cases d) (auto intro: reordered_reordered_items.intros reordered_items_refl)

lemma reordered_tree1_tree2: "reordered tree1 tree2"
proof -
  let ?a = "FileItem ''a.log'' (Inr 50)"
  let ?b = "FileItem ''b.log'' (Inr 30)"
  let ?c = "FileItem ''c.log'' (Inl (Error ''busy''))"
  have sub: "reordered (Listing [?b, ?c] None) (Listing [?c, ?b] None)"
    by (rule reordered_reordered_items.listing) (rule reordered_reordered_items.swap)
  have "reordered_items [?a, DirectoryItem ''sub'' (Listing [?b, ?c] None)]
          [DirectoryItem ''sub'' (Listing [?b, ?c] None), ?a]"
    by (rule reordered_reordered_items.swap)
  moreover have "reordered_items [DirectoryItem ''sub'' (Listing [?b, ?c] None), ?a]
          [DirectoryItem ''sub'' (Listing [?c, ?b] None), ?a]"
    using sub reordered_items_refl by (rule reordered_reordered_items.inside)
  ultimately have "reordered_items [?a, DirectoryItem ''sub'' (Listing [?b, ?c] None)]
          [DirectoryItem ''sub'' (Listing [?c, ?b] None), ?a]"
    by (rule reordered_reordered_items.trans)
  then show ?thesis
    unfolding tree1_def tree2_def by (rule reordered_reordered_items.listing)
qed

text \<open>
  Claim C6. For a directory tree all of whose listings complete,
  \<open>countFilesRecursively\<close> returns, and the count it returns is the number of files
  in the tree, whatever the nesting; a tree that differs only in the order in which
  its listings enumerate the items gives the same count. The listing of an empty
  directory gives count 0 and no dates.
\<close>

theorem countFilesRecursively_counts_files:
  assumes "listable d" and "reordered d d'"
  shows "(\<exists>a. countFilesRecursively d = Inr a \<and> count a = numFiles d)
       \<and> (\<exists>a'. countFilesRecursively d' = Inr a' \<and> count a' = numFiles d)
       \<and> countFilesRecursively (Listing [] None)
           = Inr \<lparr>count = 0, oldestFile = None, newestFile = None\<rparr>"
proof -
  from assms(1) obtain a where a: "countFilesRecursively d = Inr a"
    using traversal_returns(1) [of d] by blast
  from assms have "listable d'" and same: "numFiles d' = numFiles d"
    using reordered_same(1) [of d d'] by simp_all
  then obtain a' where a': "countFilesRecursively d' = Inr a'"
    using traversal_returns(1) [of d'] by blast
  from a have "count a = numFiles d" by (rule traversal_count(1))
  moreover from a' have "count a' = numFiles d'" by (rule traversal_count(1))
  ultimately show ?thesis using a a' same by (simp add: empty_aggregate_def)
qed

text \<open>
  A tree of three files, one of them without readable properties, and the same tree
  listed in another order at both levels.
\<close>

theorem countFilesRecursively_counts_files_witness:
  "listable tree1 \<and> reordered tree1 tree2
   \<and> (\<exists>a. countFilesRecursively tree1 = Inr a \<and> count a = 3)
   \<and> (\<exists>a'. countFilesRecursively tree2 = Inr a' \<and> count a' = 3)"
proof -
  have l: "listable tree1" by (simp add: tree1_def)
  have n: "numFiles tree1 = 3" by (simp add: tree1_def)
  from countFilesRecursively_counts_files [OF l reordered_tree1_tree2] l n reordered_tree1_tree2
  show ?thesis by simp
qed

text \<open>
  Claim C10. Every aggregate returned by \<open>countFilesRecursively\<close> has a count that
  is not negative, has an oldest date exactly when it has a newest date, and its
  oldest date is not after its newest one. The count can be positive with both
  dates absent: a file whose properties cannot be fetched is counted and adds no
  date.
\<close>

theorem countFilesRecursively_well_formed:
  assumes "countFilesRecursively d = Inr a"
  shows "0 \<le> count a
       \<and> (oldestFile a = None \<longleftrightarrow> newestFile a = None)
       \<and> (\<forall>t u. oldestFile a = Some t \<longrightarrow> newestFile a = Some u \<longrightarrow> t \<le> u)
       \<and> countFilesRecursively (Listing [FileItem ''c.log'' (Inl (Error ''busy''))] None)
           = Inr \<lparr>count = 1, oldestFile = None, newestFile = None\<rparr>"
proof -
  from assms have "well_formed a" by (rule wf_traversal(1))
  then show ?thesis by (simp add: well_formed_def empty_aggregate_def count_file_def)
qed

text \<open>The aggregate of the example tree.\<close>

theorem countFilesRecursively_well_formed_witness:
  "countFilesRecursively tree1 = Inr \<lparr>count = 3, oldestFile = Some 30, newestFile = Some 50\<rparr>
   \<and> (0::int) \<le> 3 \<and> (30::int) \<le> 50"
proof -
  have r: "countFilesRecursively tree1
             = Inr \<lparr>count = 3, oldestFile = Some 30, newestFile = Some 50\<rparr>"
    by (simp add: tree1_def empty_aggregate_def count_file_def merge_def)
  from countFilesRecursively_well_formed [OF r] r show ?thesis by simp
qed

section \<open>The website probe\<close>

lemma show_int_200: "show_int 200 = ''200''" by code_simp
lemma show_int_404: "show_int 404 = ''404''" by code_simp
lemma show_int_503: "show_int 503 = ''503''" by code_simp

text \<open>
  Claim C3. When the GET request of a website target is answered with a status code
  below 500 (a 4xx code included), \<open>checkWebsite\<close> returns a result with status
  \<open>up\<close>, the code of the response as \<open>statusCode\<close>, the elapsed time between the two
  clock readings as \<open>responseTime\<close>, and the message \<open>OK - <code>\<close>.
\<close>

theorem checkWebsite_up:
  assumes "reply ob = HttpReply st reason" and "st < 500"
  shows "checkWebsite (Some website) ob =
           Inr \<lparr>r_url = w_url website,
                r_name = js_str (js_or (w_name website) (Some (w_url website))),
                r_status = ''up'',
                r_statusCode = st,
                r_responseTime = endTime ob - startTime ob,
                r_timestamp = isoTime ob,
                r_message = ''OK - '' @ show_int st\<rparr>"
  using assms by (simp add: checkWebsite_def axios_get_def validateStatus_def)

text \<open>
  The example of the specification (HTTP 200 after 120 ms) and a 404 response.
\<close>

theorem checkWebsite_up_witness:
  "checkWebsite (Some site_ok) obs_200 =
     Inr \<lparr>r_url = ''https://ok.example'', r_name = ''https://ok.example'', r_status = ''up'',
          r_statusCode = 200, r_responseTime = 120,
          r_timestamp = ''2023-11-14T22:13:20.120Z'', r_message = ''OK - 200''\<rparr>
   \<and> r_status (projr (checkWebsite (Some site_ok) obs_404)) = ''up''
   \<and> r_statusCode (projr (checkWebsite (Some site_ok) obs_404)) = 404"
proof -
  have a: "reply obs_200 = HttpReply 200 ''OK''" by (simp add: obs_200_def)
  have b: "reply obs_404 = HttpReply 404 ''Not Found''" by (simp add: obs_404_def)
  show ?thesis
    using checkWebsite_up [OF a, of site_ok] checkWebsite_up [OF b, of site_ok]
    by (simp add: site_ok_def obs_200_def js_str_def js_or_def truthy_def show_int_200)
qed

text \<open>
  Claim C4. For a website target \<open>checkWebsite\<close> never raises: it returns a result,
  with the elapsed time. A response with a code of 500 or more gives status \<open>down\<close>
  with that code and the message \<open>HTTP <code> - <reason>\<close>; a failure without a
  response gives status \<open>down\<close> with code 0 and the message of exactly one class:
  timeout, name resolution, connection refused, or the message of the error.
\<close>

theorem checkWebsite_never_raises:
  "\<exists>r. checkWebsite (Some website) ob = Inr r
     \<and> r_responseTime r = endTime ob - startTime ob
     \<and> (case reply ob of
           HttpReply st reason \<Rightarrow>
             if st < 500 then r_status r = ''up''
             else r_status r = ''down'' \<and> r_statusCode r = st
                  \<and> r_message r = ''HTTP '' @ show_int st @ '' - '' @ reason
         | NetFailure c m \<Rightarrow>
             r_status r = ''down'' \<and> r_statusCode r = 0
             \<and> r_message r =
                 (if c = Some ''ECONNABORTED'' then ''Request timeout''
                  else if c = Some ''ENOTFOUND'' then ''DNS resolution failed''
                  else if c = Some ''ECONNREFUSED'' then ''Connection refused''
                  else m))"
  by (cases "reply ob")
     (simp_all add: checkWebsite_def axios_get_def validateStatus_def classify_def)

text \<open>A 503 response and a timeout.\<close>

theorem checkWebsite_never_raises_witness:
  "checkWebsite (Some site_ok) obs_503 =
     Inr \<lparr>r_url = ''https://ok.example'', r_name = ''https://ok.example'', r_status = ''down'',
          r_statusCode = 503, r_responseTime = 40,
          r_timestamp = ''2023-11-14T22:13:20.040Z'',
          r_message = ''HTTP 503 - Service Unavailable''\<rparr>
   \<and> checkWebsite (Some site_ok) obs_timeout =
     Inr \<lparr>r_url = ''https://ok.example'', r_name = ''https://ok.example'', r_status = ''down'',
          r_statusCode = 0, r_responseTime = 10001,
          r_timestamp = ''2023-11-14T22:13:30.001Z'',
          r_message = ''Request timeout''\<rparr>"
  using checkWebsite_never_raises [of site_ok obs_503]
        checkWebsite_never_raises [of site_ok obs_timeout]
  by (simp add: checkWebsite_def axios_get_def validateStatus_def classify_def site_ok_def
        obs_503_def obs_timeout_def js_str_def js_or_def truthy_def show_int_503)

section \<open>The probe of a file share\<close>

text \<open>
  Claim C5. For a file-store target that supplies neither \<open>sasUrl\<close> nor
  \<open>credential\<close>, \<open>checkFileStorage\<close> returns a result with status \<open>error\<close> and has
  started no request on the share: neither \<open>exists()\<close> nor any traversal.
\<close>

theorem checkFileStorage_no_access:
  assumes "\<not> truthy (sasUrl storage)" and "credential storage = None"
  shows "\<exists>r. checkFileStorage (Some storage) ob = Inr (r, [])
           \<and> sr_status r = ''error'' \<and> sr_fileCount r = 0
           \<and> sr_message r = ''Either sasUrl or credential must be provided''"
  using assms by (simp add: checkFileStorage_def make_client_def error_result_def)

text \<open>A target with an account name and a share name only.\<close>

theorem checkFileStorage_no_access_witness:
  "\<not> truthy (sasUrl store_no_access) \<and> credential store_no_access = None
   \<and> checkFileStorage (Some store_no_access) obs_logs =
       Inr (\<lparr>sr_accountName = Some ''acct'', sr_shareName = ''logs'', sr_name = ''acct/logs'',
             sr_status = ''error'', sr_fileCount = 0,
             sr_timestamp = ''2023-11-14T22:13:20.000Z'',
             sr_message = ''Either sasUrl or credential must be provided'',
             sr_directoryBreakdown = None\<rparr>, [])"
proof -
  have a: "\<not> truthy (sasUrl store_no_access)" by (simp add: store_no_access_def truthy_def)
  have b: "credential store_no_access = None" by (simp add: store_no_access_def)
  from checkFileStorage_no_access [OF a b, of obs_logs] a b show ?thesis
    by (simp add: checkFileStorage_def make_client_def error_result_def store_no_access_def
          obs_logs_def js_str_def js_or_def truthy_def)
qed

subsection \<open>Explicit directories\<close>







text \<open>
  Claim C9 as stated fails for a result with status \<open>error\<close>: the target lists two
  directories, the share does not exist, and the result has no
  \<open>directoryBreakdown\<close>.
\<close>

theorem checkFileStorage_breakdown_counterexample:
  "directories store_two_dirs = Some [''a'', ''b'']
   \<and> checkFileStorage (Some store_two_dirs) obs_absent =
       Inr (\<lparr>sr_accountName = None, sr_shareName = ''logs'', sr_name = ''Logs'',
             sr_status = ''error'', sr_fileCount = 0,
             sr_timestamp = ''2023-11-14T22:13:20.000Z'',
             sr_message = ''Share does not exist'', sr_directoryBreakdown = None\<rparr>,
            [ShareExists])"
  by (simp add: checkFileStorage_def make_client_def error_result_def store_two_dirs_def
        obs_absent_def share_absent_def truthy_def js_str_def js_or_def)

subsection \<open>Presence of the breakdown\<close>

lemma count_share_breakdown:
  assumes "count_share storage ob sh = (r, ops)"
  shows "(sr_directoryBreakdown r \<noteq> None)
           = (sr_status r = ''ok'' \<and> (\<exists>d ds. directories storage = Some (d # ds)))"
    and "\<not> (\<exists>d ds. directories storage = Some (d # ds)) \<Longrightarrow>
           ops = [CountFiles []] \<and> sr_directoryBreakdown r = None
           \<and> (case countFilesRecursively (directory sh []) of
                 Inr result \<Rightarrow> sr_status r = ''ok'' \<and> sr_fileCount r = count result
                               \<and> sr_message r = show_int (count result) @ '' files found''
               | Inl error \<Rightarrow> sr_status r = ''error'' \<and> sr_message r = message_of error)"
proof -
  show "(sr_directoryBreakdown r \<noteq> None)
           = (sr_status r = ''ok'' \<and> (\<exists>d ds. directories storage = Some (d # ds)))"
  proof (cases "directories storage")
    case None
    with assms show ?thesis
      by (cases "countFilesRecursively (directory sh [])")
         (auto simp: count_share_def error_result_def)
  next
    case (Some ds)
    show ?thesis
    proof (cases ds)
      case Nil
      with Some assms show ?thesis
        by (cases "countFilesRecursively (directory sh [])")
           (auto simp: count_share_def error_result_def)
    next
      case (Cons d ds')
      with Some assms show ?thesis
        by (cases "count_directories sh (toISOString ob) (d # ds') (0, Map.empty)")
           (auto simp: count_share_def)
    qed
  qed
next
  assume no: "\<not> (\<exists>d ds. directories storage = Some (d # ds))"
  then have "directories storage = None \<or> directories storage = Some []"
    by (cases "directories storage"; cases "the (directories storage)") auto
  with assms show "ops = [CountFiles []] \<and> sr_directoryBreakdown r = None
           \<and> (case countFilesRecursively (directory sh []) of
                 Inr result \<Rightarrow> sr_status r = ''ok'' \<and> sr_fileCount r = count result
                               \<and> sr_message r = show_int (count result) @ '' files found''
               | Inl error \<Rightarrow> sr_status r = ''error'' \<and> sr_message r = message_of error)"
    by (cases "countFilesRecursively (directory sh [])")
       (auto simp: count_share_def error_result_def)
qed

text \<open>
  Claim C9, amended. The result of \<open>checkFileStorage\<close> contains a
  \<open>directoryBreakdown\<close> if and only if its status is \<open>ok\<close> and the target specified
  a non-empty \<open>directories\<close> list; a result with status \<open>error\<close> never contains one.
  Without such a list, a probe whose share exists traverses once, from the share
  root, and reports the count of that traversal with no breakdown (or the error of
  that traversal).
\<close>

theorem checkFileStorage_breakdown:
  assumes "checkFileStorage (Some storage) ob = Inr (r, ops)"
  shows "((sr_directoryBreakdown r \<noteq> None)
            = (sr_status r = ''ok'' \<and> (\<exists>d ds. directories storage = Some (d # ds))))
       \<and> (\<forall>sh. \<not> (\<exists>d ds. directories storage = Some (d # ds))
               \<and> make_client storage ob = Some (Inr sh) \<and> exists_reply sh = Inr True
             \<longrightarrow> ops = [ShareExists, CountFiles []] \<and> sr_directoryBreakdown r = None
                 \<and> (case countFilesRecursively (directory sh []) of
                       Inr result \<Rightarrow> sr_status r = ''ok'' \<and> sr_fileCount r = count result
                         \<and> sr_message r = show_int (count result) @ '' files found''
                     | Inl error \<Rightarrow> sr_status r = ''error''
                         \<and> sr_message r = message_of error))"
proof (cases "make_client storage ob")
  case None
  with assms show ?thesis by (auto simp: checkFileStorage_def error_result_def)
next
  case (Some made)
  show ?thesis
  proof (cases made)
    case (Inl e)
    with Some assms show ?thesis by (auto simp: checkFileStorage_def error_result_def)
  next
    case (Inr sh)
    show ?thesis
    proof (cases "exists_reply sh")
      case (Inl e)
      with Some \<open>made = Inr sh\<close> assms show ?thesis
        by (auto simp: checkFileStorage_def error_result_def)
    next
      case (Inr ex)
      show ?thesis
      proof (cases ex)
        case False
        with Some \<open>made = Inr sh\<close> Inr assms show ?thesis
          by (auto simp: checkFileStorage_def error_result_def)
      next
        case True
        obtain r' ops' where cs: "count_share storage ob sh = (r', ops')"
          by (cases "count_share storage ob sh")
        with Some \<open>made = Inr sh\<close> Inr True assms have "r = r'" "ops = ShareExists # ops'"
          by (simp_all add: checkFileStorage_def)
        with count_share_breakdown [OF cs] Some \<open>made = Inr sh\<close> Inr True
        show ?thesis by auto
      qed
    qed
  qed
qed

text \<open>A target with two directories and a target with an empty list, on the same share.\<close>

theorem checkFileStorage_breakdown_witness:
  "sr_directoryBreakdown (fst (projr (checkFileStorage (Some store_two_dirs) obs_logs))) \<noteq> None
   \<and> sr_status (fst (projr (checkFileStorage (Some store_two_dirs) obs_logs))) = ''ok''
   \<and> snd (projr (checkFileStorage (Some store_empty_dirs) obs_logs))
       = [ShareExists, CountFiles []]
   \<and> sr_directoryBreakdown (fst (projr (checkFileStorage (Some store_empty_dirs) obs_logs)))
       = None"
proof -
  obtain r ops where a: "checkFileStorage (Some store_two_dirs) obs_logs = Inr (r, ops)"
    by (cases "checkFileStorage (Some store_two_dirs) obs_logs")
       (auto simp: checkFileStorage_def)
  obtain r' ops' where b: "checkFileStorage (Some store_empty_dirs) obs_logs = Inr (r', ops')"
    by (cases "checkFileStorage (Some store_empty_dirs) obs_logs")
       (auto simp: checkFileStorage_def)
  have c: "make_client store_empty_dirs obs_logs = Some (Inr share_logs)"
    by (simp add: make_client_def store_empty_dirs_def obs_logs_def truthy_def)
  have d: "exists_reply share_logs = Inr True" by (simp add: share_logs_def)
  have e: "directories store_empty_dirs = Some []" by (simp add: store_empty_dirs_def)
  have f: "directories store_two_dirs = Some [''a'', ''b'']" by (simp add: store_two_dirs_def)
  have g: "sr_status r = ''ok''"
    using a
    by (cases "count_directories share_logs (toISOString obs_logs) [''a'', ''b''] (0, Map.empty)")
       (auto simp: checkFileStorage_def make_client_def count_share_def store_two_dirs_def
          obs_logs_def share_logs_def truthy_def)
  from checkFileStorage_breakdown [OF a] checkFileStorage_breakdown [OF b] a b c d e f g
  show ?thesis by auto
qed

section \<open>The two monitors and the cycle\<close>

lemma checkWebsite_returns: "checkWebsite (Some w) ob = Inr (website_result w ob)"
  by (cases "axios_get validateStatus (reply ob)")
     (simp_all add: website_result_def checkWebsite_def)

lemma checkFileStorage_returns:
  "\<exists>ops. checkFileStorage (Some s) ob = Inr (storage_result s ob, ops)"
proof -
  obtain p where p: "checkFileStorage (Some s) ob = Inr p"
    by (simp add: checkFileStorage_def)
  then have "checkFileStorage (Some s) ob = Inr (storage_result s ob, snd p)"
    by (simp add: storage_result_def)
  then show ?thesis by blast
qed

lemma set_property_entries:
  "set_property results k v ++ map_of (rev (own_entries kvs))
     = results ++ map_of (rev (own_entries ((k, v) # kvs)))"
proof (cases "k = ''__proto__''")
  case True
  then show ?thesis by (simp add: set_property_def own_entries_def)
next
  case False
  then have "own_entries ((k, v) # kvs) = (k, v) # own_entries kvs"
    by (simp add: own_entries_def)
  then have "results ++ map_of (rev (own_entries ((k, v) # kvs)))
               = results ++ ([k \<mapsto> v] ++ map_of (rev (own_entries kvs)))"
    by simp
  also have "\<dots> = (results ++ [k \<mapsto> v]) ++ map_of (rev (own_entries kvs))"
    by (rule map_add_assoc)
  also have "results ++ [k \<mapsto> v] = set_property results k v"
    using False by (simp add: set_property_def)
  finally show ?thesis by (rule sym)
qed

lemma website_tasks_configured:
  "website_tasks (map configured ts) results
     = Inr (results ++ map_of (rev (own_entries (map website_entry ts))))"
proof (induction ts arbitrary: results)
  case Nil
  then show ?case by (simp add: own_entries_def)
next
  case (Cons t ts)
  obtain w ob where t: "t = (w, ob)" by (cases t)
  have e: "map website_entry (t # ts) = (w_url w, website_result w ob) # map website_entry ts"
    by (simp add: t website_entry_def)
  have "website_tasks (map configured (t # ts)) results
          = website_tasks (map configured ts)
              (set_property results (w_url w) (website_result w ob))"
    by (simp add: t configured_def checkWebsite_returns)
  also have "\<dots> = Inr (set_property results (w_url w) (website_result w ob)
                        ++ map_of (rev (own_entries (map website_entry ts))))"
    by (rule Cons.IH)
  also have "set_property results (w_url w) (website_result w ob)
               ++ map_of (rev (own_entries (map website_entry ts)))
               = results ++ map_of (rev (own_entries (map website_entry (t # ts))))"
    unfolding e by (rule set_property_entries)
  finally show ?case .
qed

lemma storage_tasks_configured:
  "storage_tasks (map configured ts) results
     = Inr (results ++ map_of (rev (own_entries (map storage_entry ts))))"
proof (induction ts arbitrary: results)
  case Nil
  then show ?case by (simp add: own_entries_def)
next
  case (Cons t ts)
  obtain s ob where t: "t = (s, ob)" by (cases t)
  have e: "map storage_entry (t # ts)
             = (storage_key s, storage_result s ob) # map storage_entry ts"
    by (simp add: t storage_entry_def)
  obtain ops where "checkFileStorage (Some s) ob = Inr (storage_result s ob, ops)"
    using checkFileStorage_returns by blast
  then have "storage_tasks (map configured (t # ts)) results
          = storage_tasks (map configured ts)
              (set_property results (storage_key s) (storage_result s ob))"
    by (simp add: t configured_def)
  also have "\<dots> = Inr (set_property results (storage_key s) (storage_result s ob)
                        ++ map_of (rev (own_entries (map storage_entry ts))))"
    by (rule Cons.IH)
  also have "set_property results (storage_key s) (storage_result s ob)
               ++ map_of (rev (own_entries (map storage_entry ts)))
               = results ++ map_of (rev (own_entries (map storage_entry (t # ts))))"
    unfolding e by (rule set_property_entries)
  finally show ?case .
qed










subsection \<open>A task that fails\<close>

lemma website_tasks_null:
  "\<exists>t\<in>set tasks. fst t = None \<Longrightarrow> \<exists>e. website_tasks tasks results = Inl e"
proof (induction tasks arbitrary: results)
  case Nil
  then show ?case by simp
next
  case (Cons t tasks)
  obtain entry ob where t: "t = (entry, ob)" by (cases t)
  show ?case
  proof (cases entry)
    case None
    then show ?thesis by (simp add: t checkWebsite_def)
  next
    case (Some w)
    with Cons.prems t have "\<exists>t\<in>set tasks. fst t = None" by simp
    then have "\<exists>e. website_tasks tasks (set_property results (w_url w) (website_result w ob)) = Inl e"
      by (rule Cons.IH)
    then show ?thesis by (simp add: t Some checkWebsite_returns)
  qed
qed

lemma storage_tasks_null:
  "\<exists>t\<in>set tasks. fst t = None \<Longrightarrow> \<exists>e. storage_tasks tasks results = Inl e"
proof (induction tasks arbitrary: results)
  case Nil
  then show ?case by simp
next
  case (Cons t tasks)
  obtain entry ob where t: "t = (entry, ob)" by (cases t)
  show ?case
  proof (cases entry)
    case None
    then show ?thesis by (simp add: t checkFileStorage_def)
  next
    case (Some s)
    obtain ops where r: "checkFileStorage (Some s) ob = Inr (storage_result s ob, ops)"
      using checkFileStorage_returns by blast
    from Cons.prems t Some have "\<exists>t\<in>set tasks. fst t = None" by simp
    then have "\<exists>e. storage_tasks tasks
              (set_property results (storage_key s) (storage_result s ob)) = Inl e"
      by (rule Cons.IH)
    then show ?thesis by (simp add: t Some r)
  qed
qed

lemma all_configured:
  "\<forall>t\<in>set tasks. fst t \<noteq> None \<Longrightarrow> \<exists>ts. tasks = map configured ts"
proof (induction tasks)
  case Nil
  then show ?case by simp
next
  case (Cons t tasks)
  then obtain ts where ts: "tasks = map configured ts" by auto
  from Cons.prems obtain x where "fst t = Some x" by auto
  then have "t # tasks = map configured ((x, snd t) # ts)"
    by (cases t) (simp add: ts configured_def)
  then show ?case by (rule exI)
qed

text \<open>
  Claim C2, amended. The probes turn every failure of their own calls into a
  result, so when no entry of the two target arrays is \<open>null\<close> every task completes,
  both \<open>checkAll\<close> calls return and \<open>runMonitoring\<close> publishes their maps. \<open>checkAll\<close>
  has no \<open>catch\<close> of its own: the task of a \<open>null\<close> entry fails, \<open>checkAll\<close> then
  rejects and returns no result of any target, and \<open>runMonitoring\<close> catches the
  rejection and keeps the previous \<open>monitoringResults\<close>. No error leaves
  \<open>runMonitoring\<close>.
\<close>

theorem runMonitoring_failures:
  "((\<forall>t\<in>set web_tasks. fst t \<noteq> None) \<and> (\<forall>t\<in>set store_tasks. fst t \<noteq> None) \<longrightarrow>
      (\<exists>wr sr. WebsiteMonitor_checkAll web_tasks = Inr wr
         \<and> AzureFileMonitor_checkAll store_tasks = Inr sr
         \<and> runMonitoring web_tasks store_tasks stamp previous
             = \<lparr>websites = wr, azureFiles = sr, lastUpdate = Some stamp\<rparr>))
   \<and> ((\<exists>t\<in>set web_tasks. fst t = None) \<longrightarrow>
        (\<exists>e. WebsiteMonitor_checkAll web_tasks = Inl e))
   \<and> ((\<exists>t\<in>set store_tasks. fst t = None) \<longrightarrow>
        (\<exists>e. AzureFileMonitor_checkAll store_tasks = Inl e))
   \<and> ((\<exists>t\<in>set web_tasks. fst t = None) \<or> (\<exists>t\<in>set store_tasks. fst t = None) \<longrightarrow>
        runMonitoring web_tasks store_tasks stamp previous = previous)"
proof -
  have a: "\<exists>wr sr. WebsiteMonitor_checkAll web_tasks = Inr wr
         \<and> AzureFileMonitor_checkAll store_tasks = Inr sr
         \<and> runMonitoring web_tasks store_tasks stamp previous
             = \<lparr>websites = wr, azureFiles = sr, lastUpdate = Some stamp\<rparr>"
    if "\<forall>t\<in>set web_tasks. fst t \<noteq> None" and "\<forall>t\<in>set store_tasks. fst t \<noteq> None"
  proof -
    from that obtain ws ss where "web_tasks = map configured ws" "store_tasks = map configured ss"
      using all_configured [of web_tasks] all_configured [of store_tasks] by blast
    then show ?thesis
      by (simp add: runMonitoring_def WebsiteMonitor_checkAll_def AzureFileMonitor_checkAll_def
            website_tasks_configured storage_tasks_configured)
  qed
  have b: "\<exists>e. WebsiteMonitor_checkAll web_tasks = Inl e"
    if "\<exists>t\<in>set web_tasks. fst t = None"
    using that unfolding WebsiteMonitor_checkAll_def by (rule website_tasks_null)
  have c: "\<exists>e. AzureFileMonitor_checkAll store_tasks = Inl e"
    if "\<exists>t\<in>set store_tasks. fst t = None"
    using that unfolding AzureFileMonitor_checkAll_def by (rule storage_tasks_null)
  have d: "runMonitoring web_tasks store_tasks stamp previous = previous"
    if "(\<exists>t\<in>set web_tasks. fst t = None) \<or> (\<exists>t\<in>set store_tasks. fst t = None)"
  proof (cases "WebsiteMonitor_checkAll web_tasks")
    case (Inl e)
    then show ?thesis by (simp add: runMonitoring_def)
  next
    case (Inr wr)
    have "\<not> (\<exists>t\<in>set web_tasks. fst t = None)"
    proof
      assume "\<exists>t\<in>set web_tasks. fst t = None"
      then obtain e where "WebsiteMonitor_checkAll web_tasks = Inl e" using b by blast
      with Inr show False by simp
    qed
    with that c obtain e where "AzureFileMonitor_checkAll store_tasks = Inl e" by blast
    with Inr show ?thesis by (simp add: runMonitoring_def)
  qed
  from a b c d show ?thesis by blast
qed

text \<open>A cycle over four targets, and a cycle whose website array holds a \<open>null\<close>.\<close>

theorem runMonitoring_failures_witness:
  "lastUpdate (runMonitoring (map configured two_sites) (map configured two_stores)
                 ''2023-11-14T22:13:31.000Z'' no_results) = Some ''2023-11-14T22:13:31.000Z''
   \<and> (\<exists>e. WebsiteMonitor_checkAll sites_with_null = Inl e)
   \<and> runMonitoring sites_with_null (map configured two_stores)
        ''2023-11-14T22:13:31.000Z'' no_results = no_results"
proof -
  have g: "\<forall>t\<in>set (map configured two_sites). fst t \<noteq> None"
    "\<forall>t\<in>set (map configured two_stores). fst t \<noteq> None"
    by (simp_all add: configured_def)
  have n: "\<exists>t\<in>set sites_with_null. fst t = None" by (simp add: sites_with_null_def)
  from runMonitoring_failures [of "map configured two_sites" "map configured two_stores"
         "''2023-11-14T22:13:31.000Z''" no_results]
       runMonitoring_failures [of sites_with_null "map configured two_stores"
         "''2023-11-14T22:13:31.000Z''" no_results] g n
  show ?thesis by auto
qed

text \<open>
  Claim C2 as stated fails: the failure of the task of a \<open>null\<close> entry is not
  turned into a result, \<open>checkAll\<close> rejects with it, and the cycle publishes
  nothing, also not the result of the website that answered.
\<close>

theorem checkAll_null_entry_counterexample:
  "WebsiteMonitor_checkAll sites_with_null
     = Inl (TypeError ''Cannot read properties of null (reading 'url')'')
   \<and> runMonitoring sites_with_null [] ''2023-11-14T22:13:31.000Z'' no_results = no_results"
  by (simp add: sites_with_null_def WebsiteMonitor_checkAll_def runMonitoring_def
        checkWebsite_def axios_get_def validateStatus_def obs_200_def)

end
